theory Spec2Isabelle
  imports Main "HOL-Library.Multiset"
begin

section \<open>Data model\<close>

text \<open>
  A log event is the object \<^verbatim>\<open>{ timestamp, message }\<close> that travels from \<^verbatim>\<open>parseLine\<close>
  through \<^verbatim>\<open>addLog\<close> into the \<^verbatim>\<open>PutLogEvents\<close> request. The message is a sequence of
  code units, and \<^verbatim>\<open>message.length\<close> is the length of that sequence. The type of the
  timestamp is a parameter: the batching engine works on epoch milliseconds (\<open>int\<close>),
  while \<^verbatim>\<open>parseLine\<close> may put any parsed value there.
\<close>

record 'ts logEvent =
  timestamp :: 'ts
  message :: string

text \<open>
  The mutable variables of the transport closure: the buffer \<^verbatim>\<open>bufferedLogs\<close>, the
  reference point \<^verbatim>\<open>lastFlush\<close>, the \<^verbatim>\<open>sequenceToken\<close> (\<open>None\<close> is \<^verbatim>\<open>undefined\<close>),
  the callbacks queued with \<^verbatim>\<open>setImmediate\<close> (each one holds the log event it will
  pass to \<^verbatim>\<open>addLog\<close> again), and two ghost variables: the \<^verbatim>\<open>PutLogEventsCommand\<close>
  requests handed to \<^verbatim>\<open>client.send\<close> so far, each with the token and the events it
  carried, and the log events pushed into the buffer so far, in the order of the pushes.
  In the state the timestamps are numbers, as those of \<^verbatim>\<open>Date.now()\<close> and of a numeric
  \<^verbatim>\<open>time\<close> field are; the sort itself is defined below for timestamps of any kind.
\<close>

record state =
  bufferedLogs :: "int logEvent list"
  lastFlush :: int
  sequenceToken :: "string option"
  immediates :: "int logEvent list"
  requests :: "(string option \<times> int logEvent list) list"
  admitted :: "int logEvent list"

definition MAX_EVENT_SIZE :: nat where
  "MAX_EVENT_SIZE = 2 ^ 10 * 256"

definition MAX_BUFFER_LENGTH :: nat where
  "MAX_BUFFER_LENGTH = 10000"

definition MAX_BUFFER_SIZE :: nat where
  "MAX_BUFFER_SIZE = 1048576"

text \<open>\<^verbatim>\<open>const interval = options.interval || 1000\<close>: an absent or zero option gives 1000.\<close>

definition intervalOf :: "int option \<Rightarrow> int" where
  "intervalOf opt = (case opt of None \<Rightarrow> 1000 | Some i \<Rightarrow> if i = 0 then 1000 else i)"

section \<open>The bounded batch buffer\<close>

definition reachedNumberOfLogsLimit :: "'ts logEvent list \<Rightarrow> bool" where
  "reachedNumberOfLogsLimit logs = (length logs = MAX_BUFFER_LENGTH)"

text \<open>The \<^verbatim>\<open>reduce\<close> of \<^verbatim>\<open>reachedBufferSizeLimit\<close>, a left fold from 0.\<close>

definition currentSize :: "'ts logEvent list \<Rightarrow> nat" where
  "currentSize logs = foldl (\<lambda>acc curr. acc + length (message curr) + 26) 0 logs"

definition reachedBufferSizeLimit :: "'ts logEvent list \<Rightarrow> 'ts logEvent \<Rightarrow> bool" where
  "reachedBufferSizeLimit logs newLog =
     (currentSize logs + length (message newLog) + 26 \<ge> MAX_BUFFER_SIZE)"

definition logEventExceedsSize :: "'ts logEvent \<Rightarrow> bool" where
  "logEventExceedsSize lg = (length (message lg) \<ge> MAX_EVENT_SIZE)"

definition getLogs :: "state \<Rightarrow> int logEvent list" where
  "getLogs st = bufferedLogs st"

text \<open>
  \<^verbatim>\<open>Array.prototype.sort\<close> with a comparator is a builtin of the language, stable since
  ECMAScript 2019. It is modelled by a stable insertion sort driven by the comparator's
  sign, as the builtin is: \<open>x\<close> is placed before the first \<open>y\<close> with \<open>cmp x y \<le> 0\<close>.
  Every stable sort gives this result when the comparator is consistent; when it is
  not, the builtin's order is implementation-defined, and nothing below rests on it.
\<close>

fun insertBy :: "('a \<Rightarrow> 'a \<Rightarrow> int) \<Rightarrow> 'a \<Rightarrow> 'a list \<Rightarrow> 'a list" where
  "insertBy cmp x [] = [x]"
| "insertBy cmp x (y # ys) = (if cmp x y \<le> 0 then x # y # ys else y # insertBy cmp x ys)"

definition Array_sort :: "('a \<Rightarrow> 'a \<Rightarrow> int) \<Rightarrow> 'a list \<Rightarrow> 'a list" where
  "Array_sort cmp xs = foldr (insertBy cmp) xs []"

text \<open>
  The builtin calls the comparator through \<^verbatim>\<open>SortCompare\<close>, which takes a result that is
  \<^verbatim>\<open>NaN\<close> (\<open>None\<close> here) for \<^verbatim>\<open>+0\<close>.
\<close>

definition SortCompare :: "('a \<Rightarrow> 'a \<Rightarrow> int option) \<Rightarrow> 'a \<Rightarrow> 'a \<Rightarrow> int" where
  "SortCompare comparefn x y = (case comparefn x y of None \<Rightarrow> 0 | Some v \<Rightarrow> v)"

text \<open>
  The comparator \<^verbatim>\<open>(a, b) => a.timestamp - b.timestamp\<close>. The subtraction converts both
  timestamps with \<^verbatim>\<open>ToNumber\<close>, a builtin of the language and a parameter here: \<open>None\<close> is
  \<^verbatim>\<open>NaN\<close>, and a difference with \<^verbatim>\<open>NaN\<close> is \<^verbatim>\<open>NaN\<close>.
\<close>

definition compareTimestamps ::
  "('ts \<Rightarrow> int option) \<Rightarrow> 'ts logEvent \<Rightarrow> 'ts logEvent \<Rightarrow> int option" where
  "compareTimestamps ToNumber a b =
     (case (ToNumber (timestamp a), ToNumber (timestamp b)) of
        (Some x, Some y) \<Rightarrow> Some (x - y)
      | _ \<Rightarrow> None)"

text \<open>
  \<^verbatim>\<open>getLogs().sort((a, b) => a.timestamp - b.timestamp)\<close> on a list of log events with
  timestamps of any kind.
\<close>

definition sortByTimestamp :: "('ts \<Rightarrow> int option) \<Rightarrow> 'ts logEvent list \<Rightarrow> 'ts logEvent list" where
  "sortByTimestamp ToNumber logs = Array_sort (SortCompare (compareTimestamps ToNumber)) logs"

text \<open>
  \<^verbatim>\<open>orderLogs\<close> sorts the buffer in place. The number value of a number is the number
  itself.
\<close>

definition orderLogs :: "state \<Rightarrow> state" where
  "orderLogs st = st\<lparr>bufferedLogs := sortByTimestamp Some (getLogs st)\<rparr>"

text \<open>
  \<^verbatim>\<open>shouldDoAPeriodicFlush\<close> reads the clock; \<open>now\<close> is the value \<^verbatim>\<open>Date.now()\<close> returns
  at that call.
\<close>

definition shouldDoAPeriodicFlush :: "int \<Rightarrow> int \<Rightarrow> state \<Rightarrow> bool \<times> state" where
  "shouldDoAPeriodicFlush interval now st =
     (let timeSinceLastFlush = now - lastFlush st
      in (timeSinceLastFlush > interval, st\<lparr>lastFlush := now\<rparr>))"

text \<open>
  \<^verbatim>\<open>addLog\<close>. The \<^verbatim>\<open>||\<close> of its return statement is short-circuit: the clock is read and
  \<^verbatim>\<open>lastFlush\<close> assigned only when \<^verbatim>\<open>reachedNumberOfLogsLimit()\<close> is false. In the last
  branch \<^verbatim>\<open>setImmediate\<close> appends the callback to the queue of immediates.
\<close>

definition addLog :: "int \<Rightarrow> int \<Rightarrow> int logEvent \<Rightarrow> state \<Rightarrow> bool \<times> state" where
  "addLog interval now lg st =
     (if logEventExceedsSize lg then (False, st)
      else if \<not> reachedBufferSizeLimit (bufferedLogs st) lg then
        (let st1 = st\<lparr>bufferedLogs := bufferedLogs st @ [lg], admitted := admitted st @ [lg]\<rparr>
         in if reachedNumberOfLogsLimit (bufferedLogs st1) then (True, st1)
            else shouldDoAPeriodicFlush interval now st1)
      else (True, st\<lparr>immediates := immediates st @ [lg]\<rparr>))"

definition wipeLogs :: "state \<Rightarrow> state" where
  "wipeLogs st = st\<lparr>bufferedLogs := []\<rparr>"

section \<open>The remote stream client\<close>

text \<open>
  The three ways \<^verbatim>\<open>client.send(new PutLogEventsCommand(...))\<close> settles: it resolves
  with an output whose \<^verbatim>\<open>nextSequenceToken\<close> is read; it rejects with an error named
  \<^verbatim>\<open>InvalidSequenceTokenException\<close>, whose \<^verbatim>\<open>expectedSequenceToken\<close> is read; or it
  rejects with any other error, of which \<^verbatim>\<open>e.message\<close> is read.
\<close>

datatype response =
  Accepted "string option"
| InvalidSequenceTokenException "string option"
| OtherError string

text \<open>
  \<^verbatim>\<open>putEventLogs\<close>, given how the send settles. \<open>Inl msg\<close> is the rethrown error. The
  request records the token and the events at the moment of the call.
\<close>

definition putEventLogs ::
  "response \<Rightarrow> int logEvent list \<Rightarrow> state \<Rightarrow> (string + unit) \<times> state" where
  "putEventLogs reply logEvents st =
     (if logEvents = [] then (Inr (), st)
      else
        (let st1 = st\<lparr>requests := requests st @ [(sequenceToken st, logEvents)]\<rparr>
         in case reply of
              Accepted nextSequenceToken \<Rightarrow> (Inr (), st1\<lparr>sequenceToken := nextSequenceToken\<rparr>)
            | InvalidSequenceTokenException expectedSequenceToken \<Rightarrow>
                (Inr (), st1\<lparr>sequenceToken := expectedSequenceToken\<rparr>)
            | OtherError msg \<Rightarrow> (Inl msg, st1)))"

section \<open>The error sink and the flush\<close>

text \<open>
  \<^verbatim>\<open>JSON.stringify({ message: m, error: e })\<close> for two strings, a builtin of the language,
  on 8-bit code units: the quotation mark, the reverse solidus and the control
  characters are escaped.
\<close>

definition hexDigit :: "nat \<Rightarrow> char" where
  "hexDigit n = ''0123456789abcdef'' ! (n mod 16)"

definition quoteChar :: "char \<Rightarrow> string" where
  "quoteChar c =
     (if c = CHR 0x22 then [CHR 0x5C, CHR 0x22]
      else if c = CHR 0x5C then [CHR 0x5C, CHR 0x5C]
      else if c = CHR 0x08 then [CHR 0x5C, CHR ''b'']
      else if c = CHR 0x0C then [CHR 0x5C, CHR ''f'']
      else if c = CHR 0x0A then [CHR 0x5C, CHR ''n'']
      else if c = CHR 0x0D then [CHR 0x5C, CHR ''r'']
      else if c = CHR 0x09 then [CHR 0x5C, CHR ''t'']
      else if (of_char c :: nat) < 32 then
        [CHR 0x5C, CHR ''u'', CHR ''0'', CHR ''0'',
         hexDigit (of_char c div 16), hexDigit (of_char c)]
      else [c])"

definition JSON_quote :: "string \<Rightarrow> string" where
  "JSON_quote s = CHR 0x22 # concat (map quoteChar s) @ [CHR 0x22]"

definition JSON_stringify :: "string \<Rightarrow> string \<Rightarrow> string" where
  "JSON_stringify m e =
     ''{'' @ JSON_quote ''message'' @ '':'' @ JSON_quote m @ '','' @
     JSON_quote ''error'' @ '':'' @ JSON_quote e @ ''}''"

text \<open>
  A callback queued with \<^verbatim>\<open>setImmediate\<close> runs \<^verbatim>\<open>addLog(log)\<close> as a statement: the
  value \<^verbatim>\<open>addLog\<close> returns is not used. The queue is first in, first out.
\<close>

definition runImmediate :: "int \<Rightarrow> int \<Rightarrow> state \<Rightarrow> state" where
  "runImmediate interval now st =
     (case immediates st of
        [] \<Rightarrow> st
      | lg # rest \<Rightarrow> snd (addLog interval now lg (st\<lparr>immediates := rest\<rparr>)))"

text \<open>The callbacks that run while an operation is suspended, one clock reading each.\<close>

fun runImmediates :: "int \<Rightarrow> int list \<Rightarrow> state \<Rightarrow> state" where
  "runImmediates interval [] st = st"
| "runImmediates interval (now # nows) st =
     runImmediates interval nows (runImmediate interval now st)"

text \<open>
  What the environment does during one execution of the throttled \<^verbatim>\<open>flush\<close>: the
  callbacks that run while the throttle holds the call back (\<open>held\<close>), how the send
  settles (\<open>reply\<close>), the callbacks that run while the send is pending (\<open>inFlight\<close>), and
  the two clock readings of the \<^verbatim>\<open>catch\<close> block: the timestamp of the error record
  (\<open>stamp\<close>) and the reading of \<^verbatim>\<open>shouldDoAPeriodicFlush\<close> (\<open>check\<close>).
\<close>

record attempt =
  held :: "int list"
  reply :: response
  inFlight :: "int list"
  stamp :: int
  check :: int

text \<open>
  While \<^verbatim>\<open>client.send\<close> is pending the callbacks \<open>inFlight\<close> run. With no events
  \<^verbatim>\<open>putEventLogs\<close> returns without sending, and nothing runs in between.
\<close>

definition whileSending :: "int \<Rightarrow> attempt \<Rightarrow> int logEvent list \<Rightarrow> state \<Rightarrow> state" where
  "whileSending interval a logEvents st =
     (if logEvents = [] then st else runImmediates interval (inFlight a) st)"

text \<open>
  One call of \<^verbatim>\<open>flush\<close>, run to completion. The \<^verbatim>\<open>catch\<close> block awaits \<^verbatim>\<open>addErrorLog\<close>,
  which calls \<^verbatim>\<open>flush\<close> again when \<^verbatim>\<open>addLog\<close> returns true; the \<^verbatim>\<open>finally\<close> block runs
  after that. Each execution takes one \<open>attempt\<close> from the environment; \<open>None\<close> is a
  call that never completes because the environment has no attempt left for it. No
  branch rethrows, so the result carries no error.
\<close>

fun flush :: "int \<Rightarrow> attempt list \<Rightarrow> state \<Rightarrow> state option" where
  "flush interval [] st = None"
| "flush interval (a # env) st =
     (let st1 = orderLogs (runImmediates interval (held a) st)
      in case putEventLogs (reply a) (getLogs st1) st1 of
           (Inr u, st2) \<Rightarrow> Some (wipeLogs (whileSending interval a (getLogs st1) st2))
         | (Inl e, st2) \<Rightarrow>
             (case addLog interval (check a)
                     \<lparr>timestamp = stamp a,
                      message = JSON_stringify ''pino-cloudwatch-transport flushing error'' e\<rparr>
                     (whileSending interval a (getLogs st1) st2) of
                (shouldFlush, st3) \<Rightarrow>
                  if shouldFlush then map_option wipeLogs (flush interval env st3)
                  else Some (wipeLogs st3)))"

text \<open>\<^verbatim>\<open>addErrorLog\<close>, with the two clock readings it makes.\<close>

definition addErrorLog ::
  "int \<Rightarrow> attempt list \<Rightarrow> int \<Rightarrow> int \<Rightarrow> string \<Rightarrow> string \<Rightarrow> state \<Rightarrow> state option" where
  "addErrorLog interval env stamp' check' m e st =
     (case addLog interval check' \<lparr>timestamp = stamp', message = JSON_stringify m e\<rparr> st of
        (shouldFlush, st1) \<Rightarrow> if shouldFlush then flush interval env st1 else Some st1)"

section \<open>The transport\<close>

text \<open>
  The closure starts with an empty buffer, \<^verbatim>\<open>lastFlush = Date.now()\<close> and no token.
\<close>

definition initialState :: "int \<Rightarrow> state" where
  "initialState t0 =
     \<lparr>bufferedLogs = [], lastFlush = t0, sequenceToken = None, immediates = [], requests = [],
      admitted = []\<rparr>"

text \<open>
  \<^verbatim>\<open>nextToken\<close>, given the \<^verbatim>\<open>logStreams\<close> of the \<^verbatim>\<open>DescribeLogStreams\<close> output: absent
  (\<open>None\<close>), or a list of streams, of each of which the \<^verbatim>\<open>uploadSequenceToken\<close> is kept.
  \<open>Inl\<close> is the message of the error thrown.
\<close>

definition nextToken :: "string option list option \<Rightarrow> state \<Rightarrow> string + state" where
  "nextToken logStreams st =
     (case logStreams of
        None \<Rightarrow> Inr (st\<lparr>sequenceToken := None\<rparr>)
      | Some [] \<Rightarrow> Inl ''LogStream not found.''
      | Some (s # ss) \<Rightarrow> Inr (st\<lparr>sequenceToken := s\<rparr>))"

text \<open>
  What happens to the transport: the initialisation ends (\<open>Inl e\<close>: \<^verbatim>\<open>createLogGroup\<close>,
  \<^verbatim>\<open>createLogStream\<close> or the \<^verbatim>\<open>DescribeLogStreams\<close> call threw an error with message \<open>e\<close>;
  \<open>Inr logStreams\<close>: \<^verbatim>\<open>DescribeLogStreams\<close> answered), and an error of it is reported
  through \<^verbatim>\<open>addErrorLog\<close>; the source yields an object, which the loop passes to \<^verbatim>\<open>addLog\<close>
  and, on a true result, follows with \<^verbatim>\<open>await flush()\<close>; a queued \<^verbatim>\<open>setImmediate\<close>
  callback runs; the transport is closed.
\<close>

datatype event =
  Start "string + string option list option" int int "attempt list"
| Line "int logEvent" int "attempt list"
| Immediate int
| Close "attempt list"

fun step :: "int \<Rightarrow> event \<Rightarrow> state \<Rightarrow> state option" where
  "step interval (Start boot stamp' check' env) st =
     (case (case boot of Inl e \<Rightarrow> Inl e | Inr logStreams \<Rightarrow> nextToken logStreams st) of
        Inl e \<Rightarrow>
          addErrorLog interval env stamp' check'
            ''pino-cloudwatch-transport initialization error'' e st
      | Inr st1 \<Rightarrow> Some st1)"
| "step interval (Line obj now env) st =
     (case addLog interval now obj st of
        (shouldFlush, st1) \<Rightarrow> if shouldFlush then flush interval env st1 else Some st1)"
| "step interval (Immediate now) st = Some (runImmediate interval now st)"
| "step interval (Close env) st = flush interval env st"

fun run :: "int \<Rightarrow> event list \<Rightarrow> state \<Rightarrow> state option" where
  "run interval [] st = Some st"
| "run interval (ev # evs) st =
     (case step interval ev st of None \<Rightarrow> None | Some st1 \<Rightarrow> run interval evs st1)"

section \<open>The record normaliser\<close>

text \<open>
  The values \<^verbatim>\<open>JSON.parse\<close> returns. A number is an integer here (epoch milliseconds
  are); an object is the list of its own properties.
\<close>

datatype json =
  JNull
| JBool bool
| JNumber int
| JString string
| JArray "json list"
| JObject "(string \<times> json) list"

datatype error = TypeError

text \<open>
  \<^verbatim>\<open>value.time\<close>: reading a property of \<^verbatim>\<open>null\<close> throws a \<^verbatim>\<open>TypeError\<close>; an object gives
  its property \<^verbatim>\<open>time\<close>, \<open>None\<close> (\<^verbatim>\<open>undefined\<close>) if it has none; a boolean, a number,
  a string and an array have no such property.
\<close>

fun getTime :: "json \<Rightarrow> error + json option" where
  "getTime JNull = Inl TypeError"
| "getTime (JObject props) = Inr (map_of props ''time'')"
| "getTime v = Inr None"

text \<open>The left operand of \<^verbatim>\<open>||\<close> is taken when it is truthy.\<close>

fun truthy :: "json \<Rightarrow> bool" where
  "truthy JNull = False"
| "truthy (JBool b) = b"
| "truthy (JNumber n) = (n \<noteq> 0)"
| "truthy (JString s) = (s \<noteq> [])"
| "truthy (JArray vs) = True"
| "truthy (JObject props) = True"

text \<open>
  \<^verbatim>\<open>parseLine\<close>. \<^verbatim>\<open>JSON.parse\<close> is a builtin of the language and a parameter here: \<open>None\<close>
  is a line on which it throws. The \<^verbatim>\<open>catch\<close> block assigns the string \<^verbatim>\<open>'{}'\<close>. The
  property read and the \<^verbatim>\<open>||\<close> stand outside the \<^verbatim>\<open>try\<close>.
\<close>

definition parseLine ::
  "(string \<Rightarrow> json option) \<Rightarrow> int \<Rightarrow> string \<Rightarrow> error + json logEvent" where
  "parseLine JSON_parse now line =
     (let value = (case JSON_parse line of Some v \<Rightarrow> v | None \<Rightarrow> JString ''{}'')
      in case getTime value of
           Inl err \<Rightarrow> Inl err
         | Inr time \<Rightarrow>
             Inr \<lparr>timestamp =
                    (case time of
                       Some t \<Rightarrow> if truthy t then t else JNumber now
                     | None \<Rightarrow> JNumber now),
                  message = line\<rparr>)"

section \<open>Limits as predicates\<close>

text \<open>
  A list of log events is admissible when every message is under the per-event ceiling
  and the size estimate of the list is under the batch ceiling. A state is within its
  limits when the buffer and every request sent so far are admissible.
\<close>

definition admissible :: "int logEvent list \<Rightarrow> bool" where
  "admissible logs =
     ((\<forall>l \<in> set logs. length (message l) < MAX_EVENT_SIZE) \<and>
      currentSize logs < MAX_BUFFER_SIZE)"

definition withinLimits :: "state \<Rightarrow> bool" where
  "withinLimits st =
     (admissible (bufferedLogs st) \<and> (\<forall>rq \<in> set (requests st). admissible (snd rq)))"



section \<open>Ordering the batch\<close>

lemma insertBy_timestamp:
  "insertBy (SortCompare (compareTimestamps Some)) x ys = insort_key timestamp x ys"
  by (induction ys) (auto simp: SortCompare_def compareTimestamps_def)

lemma sortByTimestamp_Some: "sortByTimestamp Some xs = sort_key timestamp xs"
  by (induction xs) (auto simp: sortByTimestamp_def Array_sort_def insertBy_timestamp)

lemma mset_insertBy: "mset (insertBy cmp x ys) = add_mset x (mset ys)"
  by (induction ys) auto

lemma mset_Array_sort: "mset (Array_sort cmp xs) = mset xs"
  by (induction xs) (auto simp: Array_sort_def mset_insertBy)

lemma length_Array_sort: "length (Array_sort cmp xs) = length xs"
  using mset_Array_sort [of cmp xs] by (metis size_mset)

lemma set_Array_sort: "set (Array_sort cmp xs) = set xs"
  using mset_Array_sort [of cmp xs] by (metis set_mset_mset)

lemma insertBy_numeric:
  assumes "ToNumber (timestamp x) \<noteq> None" and "\<forall>l \<in> set ys. ToNumber (timestamp l) \<noteq> None"
  shows "insertBy (SortCompare (compareTimestamps ToNumber)) x ys
           = insort_key (\<lambda>l. the (ToNumber (timestamp l))) x ys"
  using assms by (induction ys) (auto simp: SortCompare_def compareTimestamps_def)

lemma sortByTimestamp_numeric:
  assumes "\<forall>l \<in> set logs. ToNumber (timestamp l) \<noteq> None"
  shows "sortByTimestamp ToNumber logs = sort_key (\<lambda>l. the (ToNumber (timestamp l))) logs"
  using assms
proof (induction logs)
  case Nil
  then show ?case by (simp add: sortByTimestamp_def Array_sort_def)
next
  case (Cons x xs)
  then have ih: "sortByTimestamp ToNumber xs = sort_key (\<lambda>l. the (ToNumber (timestamp l))) xs"
    by simp
  have "sortByTimestamp ToNumber (x # xs)
      = insertBy (SortCompare (compareTimestamps ToNumber)) x (sortByTimestamp ToNumber xs)"
    by (simp add: sortByTimestamp_def Array_sort_def)
  also have "\<dots> = insort_key (\<lambda>l. the (ToNumber (timestamp l))) x
      (sort_key (\<lambda>l. the (ToNumber (timestamp l))) xs)"
    using Cons.prems by (simp add: ih insertBy_numeric)
  finally show ?case by simp
qed

text \<open>
  C7, as the code has it: for every list of log events whose timestamps all have a number
  value (they are numbers, or \<^verbatim>\<open>ToNumber\<close> gives a number for them), the sorted list is
  a permutation of the list, it is in ascending order of that value, and for every value
  the events carrying it appear in the order in which they were before (the sort is
  stable). \<^verbatim>\<open>orderLogs\<close> replaces the buffer by the sorted buffer.
\<close>

theorem orderLogs_numeric_sorted_stable:
  assumes "\<forall>l \<in> set logs. ToNumber (timestamp l) \<noteq> None"
  shows "mset (sortByTimestamp ToNumber logs) = mset logs
    \<and> sorted (map (\<lambda>l. the (ToNumber (timestamp l))) (sortByTimestamp ToNumber logs))
    \<and> filter (\<lambda>l. ToNumber (timestamp l) = Some t) (sortByTimestamp ToNumber logs)
        = filter (\<lambda>l. ToNumber (timestamp l) = Some t) logs
    \<and> bufferedLogs (orderLogs st) = sortByTimestamp Some (bufferedLogs st)"
proof -
  let ?key = "\<lambda>l. the (ToNumber (timestamp l))"
  have sorted_logs: "sortByTimestamp ToNumber logs = sort_key ?key logs"
    using assms by (rule sortByTimestamp_numeric)
  have same: "(ToNumber (timestamp l) = Some t) = (?key l = t)" if "l \<in> set logs" for l
    using assms that by auto
  have "filter (\<lambda>l. ToNumber (timestamp l) = Some t) (sort_key ?key logs)
      = filter (\<lambda>l. ?key l = t) (sort_key ?key logs)"
    by (rule filter_cong) (simp_all add: same)
  also have "\<dots> = filter (\<lambda>l. ?key l = t) logs"
    by (rule sort_key_stable)
  also have "\<dots> = filter (\<lambda>l. ToNumber (timestamp l) = Some t) logs"
    by (rule filter_cong) (simp_all add: same)
  finally have stable: "filter (\<lambda>l. ToNumber (timestamp l) = Some t) (sort_key ?key logs)
      = filter (\<lambda>l. ToNumber (timestamp l) = Some t) logs" .
  have "mset (sort_key ?key logs) = mset logs" by simp
  moreover have "sorted (map ?key (sort_key ?key logs))" by simp
  moreover have "bufferedLogs (orderLogs st) = sortByTimestamp Some (bufferedLogs st)"
    by (simp add: orderLogs_def getLogs_def)
  ultimately show ?thesis using stable by (simp only: sorted_logs)
qed

theorem orderLogs_numeric_sorted_stable_witness:
  "list_all (\<lambda>l. (case timestamp l of JNumber n \<Rightarrow> Some n | _ \<Rightarrow> None) \<noteq> None)
     [\<lparr>timestamp = JNumber 3, message = ''c''\<rparr>, \<lparr>timestamp = JNumber 1, message = ''a''\<rparr>,
      \<lparr>timestamp = JNumber 3, message = ''d''\<rparr>]
   \<and> sortByTimestamp (\<lambda>v. case v of JNumber n \<Rightarrow> Some n | _ \<Rightarrow> None)
        [\<lparr>timestamp = JNumber 3, message = ''c''\<rparr>, \<lparr>timestamp = JNumber 1, message = ''a''\<rparr>,
         \<lparr>timestamp = JNumber 3, message = ''d''\<rparr>]
      = [\<lparr>timestamp = JNumber 1, message = ''a''\<rparr>, \<lparr>timestamp = JNumber 3, message = ''c''\<rparr>,
         \<lparr>timestamp = JNumber 3, message = ''d''\<rparr>]"
  using orderLogs_numeric_sorted_stable [where ToNumber = "\<lambda>v. case v of JNumber n \<Rightarrow> Some n | _ \<Rightarrow> None"
      and logs = "[\<lparr>timestamp = JNumber 3, message = ''c''\<rparr>, \<lparr>timestamp = JNumber 1, message = ''a''\<rparr>,
         \<lparr>timestamp = JNumber 3, message = ''d''\<rparr>]"]
  by (simp add: sortByTimestamp_def Array_sort_def SortCompare_def compareTimestamps_def)

text \<open>
  C7 as stated fails: a buffer whose timestamps are the ISO strings of two days, the later
  day first, comes out as it went in. Each difference is \<^verbatim>\<open>NaN\<close>, so the comparator tells
  the sort that any two events are equal, and the batch is not in ascending order of
  timestamp.
\<close>

theorem orderLogs_string_timestamps_counterexample:
  "sortByTimestamp (\<lambda>v. case v of JNumber n \<Rightarrow> Some n | _ \<Rightarrow> None)
     [\<lparr>timestamp = JString ''2024-01-02T00:00:00.000Z'', message = ''second day''\<rparr>,
      \<lparr>timestamp = JString ''2024-01-01T00:00:00.000Z'', message = ''first day''\<rparr>]
   = [\<lparr>timestamp = JString ''2024-01-02T00:00:00.000Z'', message = ''second day''\<rparr>,
      \<lparr>timestamp = JString ''2024-01-01T00:00:00.000Z'', message = ''first day''\<rparr>]"
  by (simp add: sortByTimestamp_def Array_sort_def SortCompare_def compareTimestamps_def)

section \<open>The size estimate\<close>

lemma foldl_size_sum:
  "foldl (\<lambda>acc curr. acc + length (message curr) + 26) a logs
     = a + sum_list (map (\<lambda>l. length (message l) + 26) logs)"
  by (induction logs arbitrary: a) auto

lemma currentSize_sum_list:
  "currentSize logs = sum_list (map (\<lambda>l. length (message l) + 26) logs)"
  by (simp add: currentSize_def foldl_size_sum)

lemma currentSize_append: "currentSize (xs @ ys) = currentSize xs + currentSize ys"
  by (simp add: currentSize_sum_list)

lemma currentSize_single: "currentSize [x] = length (message x) + 26"
  by (simp add: currentSize_sum_list)

lemma currentSize_Nil: "currentSize [] = 0"
  by (simp add: currentSize_sum_list)

lemma currentSize_replicate: "currentSize (replicate n x) = n * (length (message x) + 26)"
  by (simp add: currentSize_sum_list sum_list_replicate)

lemma currentSize_mset: "mset xs = mset ys \<Longrightarrow> currentSize xs = currentSize ys"
proof -
  assume "mset xs = mset ys"
  then have "mset (map (\<lambda>l. length (message l) + 26) xs) = mset (map (\<lambda>l. length (message l) + 26) ys)"
    by simp
  then have "sum_list (map (\<lambda>l. length (message l) + 26) xs) = sum_list (map (\<lambda>l. length (message l) + 26) ys)"
    by (metis sum_mset_sum_list)
  then show ?thesis by (simp add: currentSize_sum_list)
qed

section \<open>Admission\<close>

text \<open>
  C6, as the code has it: an event that is under the per-event ceiling and does not hit
  the byte ceiling, added to a buffer of fewer than 10000 events, is pushed; \<^verbatim>\<open>addLog\<close>
  returns true exactly when the buffer has now reached 10000 events or more than
  \<open>interval\<close> milliseconds have passed since \<^verbatim>\<open>lastFlush\<close>; and \<^verbatim>\<open>lastFlush\<close> becomes the current
  time, also when the call returns false, unless the buffer has now reached 10000
  events: then the periodic check is not evaluated and \<^verbatim>\<open>lastFlush\<close> keeps its value.
\<close>

theorem addLog_admitted:
  assumes "\<not> logEventExceedsSize lg" and "\<not> reachedBufferSizeLimit (bufferedLogs st) lg"
    and "length (bufferedLogs st) < 10000"
  shows "bufferedLogs (snd (addLog interval now lg st)) = bufferedLogs st @ [lg]
    \<and> fst (addLog interval now lg st)
        = (10000 \<le> length (bufferedLogs st @ [lg]) \<or> now - lastFlush st > interval)
    \<and> lastFlush (snd (addLog interval now lg st))
        = (if 10000 \<le> length (bufferedLogs st @ [lg]) then lastFlush st else now)"
  using assms
  by (auto simp: addLog_def Let_def reachedNumberOfLogsLimit_def MAX_BUFFER_LENGTH_def
      shouldDoAPeriodicFlush_def)

theorem addLog_admitted_witness:
  "\<not> logEventExceedsSize \<lparr>timestamp = 7::int, message = ''hello''\<rparr>
   \<and> \<not> reachedBufferSizeLimit (bufferedLogs (initialState 0)) \<lparr>timestamp = 7, message = ''hello''\<rparr>
   \<and> length (bufferedLogs (initialState 0)) < 10000
   \<and> bufferedLogs (snd (addLog 1000 2500 \<lparr>timestamp = 7, message = ''hello''\<rparr> (initialState 0)))
        = [\<lparr>timestamp = 7, message = ''hello''\<rparr>]
   \<and> fst (addLog 1000 2500 \<lparr>timestamp = 7, message = ''hello''\<rparr> (initialState 0))
   \<and> lastFlush (snd (addLog 1000 2500 \<lparr>timestamp = 7, message = ''hello''\<rparr> (initialState 0))) = 2500"
proof -
  have a: "\<not> logEventExceedsSize \<lparr>timestamp = 7::int, message = ''hello''\<rparr>"
    by (simp add: logEventExceedsSize_def MAX_EVENT_SIZE_def)
  have b: "\<not> reachedBufferSizeLimit (bufferedLogs (initialState 0)) \<lparr>timestamp = 7, message = ''hello''\<rparr>"
    by (simp add: reachedBufferSizeLimit_def initialState_def currentSize_Nil MAX_BUFFER_SIZE_def)
  have c: "length (bufferedLogs (initialState 0)) < 10000"
    by (simp add: initialState_def)
  show ?thesis
    using a b c addLog_admitted [OF a b c, of 1000 2500]
    by (simp add: initialState_def)
qed

text \<open>
  C6 as stated fails in two states. With 9999 events buffered, an admitted event brings
  the buffer to 10000, \<^verbatim>\<open>addLog\<close> returns true, and \<^verbatim>\<open>lastFlush\<close> is still 0 although the clock
  reads 5. With 10000 events buffered, an admitted event brings the buffer to 10001, past
  the ceiling, and \<^verbatim>\<open>addLog\<close> returns false.
\<close>

theorem addLog_reset_counterexample:
  "\<not> logEventExceedsSize \<lparr>timestamp = 5::int, message = ''x''\<rparr>
   \<and> \<not> reachedBufferSizeLimit (replicate 9999 \<lparr>timestamp = 0::int, message = ''x''\<rparr>)
          \<lparr>timestamp = 5, message = ''x''\<rparr>
   \<and> fst (addLog 1000 5 \<lparr>timestamp = 5, message = ''x''\<rparr>
          \<lparr>bufferedLogs = replicate 9999 \<lparr>timestamp = 0, message = ''x''\<rparr>, lastFlush = 0,
           sequenceToken = None, immediates = [], requests = [], admitted = []\<rparr>)
   \<and> lastFlush (snd (addLog 1000 5 \<lparr>timestamp = 5, message = ''x''\<rparr>
          \<lparr>bufferedLogs = replicate 9999 \<lparr>timestamp = 0, message = ''x''\<rparr>, lastFlush = 0,
           sequenceToken = None, immediates = [], requests = [], admitted = []\<rparr>)) \<noteq> 5
   \<and> \<not> reachedBufferSizeLimit (replicate 10000 \<lparr>timestamp = 0::int, message = ''x''\<rparr>)
          \<lparr>timestamp = 5, message = ''x''\<rparr>
   \<and> length (bufferedLogs (snd (addLog 1000 5 \<lparr>timestamp = 5, message = ''x''\<rparr>
          \<lparr>bufferedLogs = replicate 10000 \<lparr>timestamp = 0, message = ''x''\<rparr>, lastFlush = 0,
           sequenceToken = None, immediates = [], requests = [], admitted = []\<rparr>))) = 10001
   \<and> \<not> fst (addLog 1000 5 \<lparr>timestamp = 5, message = ''x''\<rparr>
          \<lparr>bufferedLogs = replicate 10000 \<lparr>timestamp = 0, message = ''x''\<rparr>, lastFlush = 0,
           sequenceToken = None, immediates = [], requests = [], admitted = []\<rparr>)"
  by (simp add: addLog_def logEventExceedsSize_def MAX_EVENT_SIZE_def reachedBufferSizeLimit_def
      currentSize_replicate MAX_BUFFER_SIZE_def reachedNumberOfLogsLimit_def MAX_BUFFER_LENGTH_def
      shouldDoAPeriodicFlush_def)

section \<open>Token recovery\<close>

text \<open>
  C4: when the service rejects a non-empty batch with a token conflict carrying the
  expected token \<open>X\<close>, \<^verbatim>\<open>putEventLogs\<close> returns normally, has sent the batch once, and
  holds \<open>X\<close>; the next non-empty submission is sent with \<open>X\<close>, whatever its batch and
  however it settles.
\<close>

theorem putEventLogs_token_conflict:
  assumes "logEvents \<noteq> []" and "nextEvents \<noteq> []"
  shows "putEventLogs (InvalidSequenceTokenException X) logEvents st
           = (Inr (), st\<lparr>requests := requests st @ [(sequenceToken st, logEvents)],
                         sequenceToken := X\<rparr>)
    \<and> requests (snd (putEventLogs r nextEvents
          (snd (putEventLogs (InvalidSequenceTokenException X) logEvents st))))
        = requests st @ [(sequenceToken st, logEvents), (X, nextEvents)]"
  using assms by (auto simp: putEventLogs_def Let_def split: response.splits)

theorem putEventLogs_token_conflict_witness:
  "[\<lparr>timestamp = 1::int, message = ''a''\<rparr>] \<noteq> []
   \<and> [\<lparr>timestamp = 2::int, message = ''b''\<rparr>] \<noteq> []
   \<and> putEventLogs (InvalidSequenceTokenException (Some ''t2''))
        [\<lparr>timestamp = 1, message = ''a''\<rparr>] ((initialState 0)\<lparr>sequenceToken := Some ''t1''\<rparr>)
      = (Inr (), (initialState 0)\<lparr>requests := [(Some ''t1'', [\<lparr>timestamp = 1, message = ''a''\<rparr>])],
                                  sequenceToken := Some ''t2''\<rparr>)
   \<and> requests (snd (putEventLogs (Accepted (Some ''t3'')) [\<lparr>timestamp = 2, message = ''b''\<rparr>]
        (snd (putEventLogs (InvalidSequenceTokenException (Some ''t2''))
           [\<lparr>timestamp = 1, message = ''a''\<rparr>] ((initialState 0)\<lparr>sequenceToken := Some ''t1''\<rparr>)))))
      = [(Some ''t1'', [\<lparr>timestamp = 1, message = ''a''\<rparr>]),
         (Some ''t2'', [\<lparr>timestamp = 2, message = ''b''\<rparr>])]"
  using putEventLogs_token_conflict [of "[\<lparr>timestamp = 1, message = ''a''\<rparr>]"
      "[\<lparr>timestamp = 2, message = ''b''\<rparr>]" "Some ''t2''"
      "(initialState 0)\<lparr>sequenceToken := Some ''t1''\<rparr>" "Accepted (Some ''t3'')"]
  by (simp add: initialState_def putEventLogs_def)

section \<open>The limits hold in every state\<close>

lemma admissible_Nil: "admissible []"
  by (simp add: admissible_def currentSize_Nil MAX_BUFFER_SIZE_def)

lemma withinLimits_initialState: "withinLimits (initialState t0)"
  by (simp add: withinLimits_def initialState_def admissible_Nil)

lemma withinLimits_addLog: "withinLimits st \<Longrightarrow> withinLimits (snd (addLog interval now lg st))"
  by (auto simp: withinLimits_def addLog_def Let_def shouldDoAPeriodicFlush_def admissible_def
      logEventExceedsSize_def reachedBufferSizeLimit_def currentSize_append currentSize_single)

lemma withinLimits_runImmediate: "withinLimits st \<Longrightarrow> withinLimits (runImmediate interval now st)"
proof (cases "immediates st")
  case Nil
  then show "withinLimits st \<Longrightarrow> ?thesis" by (simp add: runImmediate_def)
next
  case (Cons lg rest)
  assume "withinLimits st"
  then have "withinLimits (st\<lparr>immediates := rest\<rparr>)" by (simp add: withinLimits_def)
  then have "withinLimits (snd (addLog interval now lg (st\<lparr>immediates := rest\<rparr>)))" by (rule withinLimits_addLog)
  with Cons show ?thesis by (simp add: runImmediate_def)
qed

lemma withinLimits_runImmediates: "withinLimits st \<Longrightarrow> withinLimits (runImmediates interval nows st)"
  by (induction nows arbitrary: st) (auto simp: withinLimits_runImmediate)

lemma admissible_Array_sort: "admissible logs \<Longrightarrow> admissible (Array_sort cmp logs)"
  using currentSize_mset [OF mset_Array_sort [of cmp logs]]
  by (simp add: admissible_def set_Array_sort)

lemma withinLimits_orderLogs: "withinLimits st \<Longrightarrow> withinLimits (orderLogs st)"
  by (simp add: withinLimits_def orderLogs_def getLogs_def sortByTimestamp_def
      admissible_Array_sort)

lemma withinLimits_wipeLogs: "withinLimits st \<Longrightarrow> withinLimits (wipeLogs st)"
  by (simp add: withinLimits_def wipeLogs_def admissible_Nil)

lemma withinLimits_putEventLogs: "withinLimits st \<Longrightarrow> withinLimits (snd (putEventLogs r (getLogs st) st))"
  by (auto simp: withinLimits_def putEventLogs_def getLogs_def Let_def split: response.splits)

lemma withinLimits_whileSending:
  "withinLimits st \<Longrightarrow> withinLimits (whileSending interval a logEvents st)"
  by (simp add: whileSending_def withinLimits_runImmediates)

lemma withinLimits_flush:
  "flush interval env st = Some st' \<Longrightarrow> withinLimits st \<Longrightarrow> withinLimits st'"
proof (induction env arbitrary: st st')
  case Nil
  then show ?case by simp
next
  case (Cons a env)
  define st1 where "st1 = orderLogs (runImmediates interval (held a) st)"
  have i1: "withinLimits st1"
    using Cons.prems(2) by (simp add: st1_def withinLimits_orderLogs withinLimits_runImmediates)
  obtain res st2 where put: "putEventLogs (reply a) (getLogs st1) st1 = (res, st2)"
    by (cases "putEventLogs (reply a) (getLogs st1) st1")
  have "withinLimits st2"
    using withinLimits_putEventLogs [OF i1, of "reply a"] put by simp
  then have i2: "withinLimits (whileSending interval a (getLogs st1) st2)"
    by (rule withinLimits_whileSending)
  show ?case
  proof (cases res)
    case (Inr u)
    with Cons.prems(1) put have "st' = wipeLogs (whileSending interval a (getLogs st1) st2)"
      by (simp add: st1_def [symmetric])
    with i2 show ?thesis by (simp add: withinLimits_wipeLogs)
  next
    case (Inl e)
    define rec where "rec = \<lparr>timestamp = stamp a,
        message = JSON_stringify ''pino-cloudwatch-transport flushing error'' e\<rparr>"
    obtain b st3 where add: "addLog interval (check a) rec
        (whileSending interval a (getLogs st1) st2) = (b, st3)"
      by (cases "addLog interval (check a) rec (whileSending interval a (getLogs st1) st2)")
    have i3: "withinLimits st3"
      using withinLimits_addLog [OF i2, of interval "check a" rec] add by simp
    show ?thesis
    proof (cases b)
      case True
      with Cons.prems(1) put Inl add obtain st4 where
        nested: "flush interval env st3 = Some st4" and "st' = wipeLogs st4"
        by (auto simp: st1_def [symmetric] rec_def [symmetric])
      with Cons.IH [OF nested i3] show ?thesis by (simp add: withinLimits_wipeLogs)
    next
      case False
      with Cons.prems(1) put Inl add have "st' = wipeLogs st3"
        by (simp add: st1_def [symmetric] rec_def [symmetric])
      with i3 show ?thesis by (simp add: withinLimits_wipeLogs)
    qed
  qed
qed

lemma withinLimits_addErrorLog:
  "addErrorLog interval env s c m e st = Some st' \<Longrightarrow> withinLimits st \<Longrightarrow> withinLimits st'"
proof -
  assume r: "addErrorLog interval env s c m e st = Some st'" and i: "withinLimits st"
  obtain b st1 where add: "addLog interval c \<lparr>timestamp = s, message = JSON_stringify m e\<rparr> st = (b, st1)"
    by (cases "addLog interval c \<lparr>timestamp = s, message = JSON_stringify m e\<rparr> st")
  have i1: "withinLimits st1" using withinLimits_addLog [OF i, of interval c "\<lparr>timestamp = s, message = JSON_stringify m e\<rparr>"] add by simp
  show ?thesis
    using r add i1 by (cases b) (auto simp: addErrorLog_def dest: withinLimits_flush)
qed

lemma withinLimits_nextToken:
  "nextToken logStreams st = Inr st' \<Longrightarrow> withinLimits st \<Longrightarrow> withinLimits st'"
  by (auto simp: nextToken_def withinLimits_def split: option.splits list.splits)

lemma withinLimits_step:
  "step interval ev st = Some st' \<Longrightarrow> withinLimits st \<Longrightarrow> withinLimits st'"
proof (cases ev)
  case (Start boot s c env)
  assume "step interval ev st = Some st'" and "withinLimits st"
  with Start show ?thesis
    by (auto split: sum.splits dest: withinLimits_addErrorLog withinLimits_nextToken)
next
  case (Line obj now env)
  assume r: "step interval ev st = Some st'" and i: "withinLimits st"
  obtain b st1 where add: "addLog interval now obj st = (b, st1)"
    by (cases "addLog interval now obj st")
  have i1: "withinLimits st1" using withinLimits_addLog [OF i, of interval now obj] add by simp
  show ?thesis using r Line add i1 by (cases b) (auto dest: withinLimits_flush)
next
  case (Immediate now)
  assume "step interval ev st = Some st'" and "withinLimits st"
  with Immediate show ?thesis by (auto simp: withinLimits_runImmediate)
next
  case (Close env)
  assume "step interval ev st = Some st'" and "withinLimits st"
  with Close show ?thesis by (auto dest: withinLimits_flush)
qed

lemma withinLimits_run: "run interval evs st = Some st' \<Longrightarrow> withinLimits st \<Longrightarrow> withinLimits st'"
  by (induction evs arbitrary: st) (auto split: option.splits dest: withinLimits_step)

text \<open>
  The byte-ceiling half of C1 holds: whatever happens to the transport from its initial
  state, the size estimate of every request sent is below 1048576.
\<close>

lemma transmitted_size_bounded:
  assumes "run interval evs (initialState start) = Some st'" and "rq \<in> set (requests st')"
  shows "currentSize (snd rq) < 1048576"
proof -
  have "withinLimits st'"
    using assms(1) withinLimits_initialState by (rule withinLimits_run)
  with assms(2) show ?thesis
    by (simp add: withinLimits_def admissible_def MAX_BUFFER_SIZE_def)
qed

text \<open>
  C2: an event whose message has 262144 code units or more is rejected by \<^verbatim>\<open>addLog\<close>,
  which returns false and leaves the state as it was; and whatever happens to the
  transport from its initial state, every event of every request sent has a message of
  fewer than 262144 code units.
\<close>

theorem oversize_never_transmitted:
  "(262144 \<le> length (message lg) \<longrightarrow> addLog interval now lg st = (False, st))
   \<and> (run interval evs (initialState start) = Some st' \<longrightarrow>
        (\<forall>rq \<in> set (requests st'). \<forall>l \<in> set (snd rq). length (message l) < 262144))"
proof (intro conjI impI)
  assume "262144 \<le> length (message lg)"
  then show "addLog interval now lg st = (False, st)"
    by (simp add: addLog_def logEventExceedsSize_def MAX_EVENT_SIZE_def)
next
  assume "run interval evs (initialState start) = Some st'"
  then have "withinLimits st'"
    using withinLimits_initialState by (rule withinLimits_run)
  then show "\<forall>rq \<in> set (requests st'). \<forall>l \<in> set (snd rq). length (message l) < 262144"
    by (simp add: withinLimits_def admissible_def MAX_EVENT_SIZE_def)
qed

theorem oversize_never_transmitted_witness:
  "262144 \<le> length (message \<lparr>timestamp = 1::int, message = replicate 262144 (CHR ''a'')\<rparr>)
   \<and> addLog 1000 2000 \<lparr>timestamp = 1, message = replicate 262144 (CHR ''a'')\<rparr> (initialState 0)
       = (False, initialState 0)
   \<and> run 1000
        [Line \<lparr>timestamp = 1, message = replicate 262144 (CHR ''a'')\<rparr> 2000
           [\<lparr>held = [], reply = Accepted (Some ''t1''), inFlight = [], stamp = 0, check = 0\<rparr>],
         Line \<lparr>timestamp = 2, message = ''ok''\<rparr> 2000
           [\<lparr>held = [], reply = Accepted (Some ''t1''), inFlight = [], stamp = 0, check = 0\<rparr>]]
        (initialState 0)
       = Some \<lparr>bufferedLogs = [], lastFlush = 2000, sequenceToken = Some ''t1'', immediates = [],
               requests = [(None, [\<lparr>timestamp = 2, message = ''ok''\<rparr>])],
               admitted = [\<lparr>timestamp = 2, message = ''ok''\<rparr>]\<rparr>
   \<and> length (message \<lparr>timestamp = 2::int, message = ''ok''\<rparr>) < 262144"
proof -
  have r: "run 1000
        [Line \<lparr>timestamp = 1, message = replicate 262144 (CHR ''a'')\<rparr> 2000
           [\<lparr>held = [], reply = Accepted (Some ''t1''), inFlight = [], stamp = 0, check = 0\<rparr>],
         Line \<lparr>timestamp = 2, message = ''ok''\<rparr> 2000
           [\<lparr>held = [], reply = Accepted (Some ''t1''), inFlight = [], stamp = 0, check = 0\<rparr>]]
        (initialState 0)
       = Some \<lparr>bufferedLogs = [], lastFlush = 2000, sequenceToken = Some ''t1'', immediates = [],
               requests = [(None, [\<lparr>timestamp = 2, message = ''ok''\<rparr>])],
               admitted = [\<lparr>timestamp = 2, message = ''ok''\<rparr>]\<rparr>"
    by (simp add: addLog_def logEventExceedsSize_def MAX_EVENT_SIZE_def reachedBufferSizeLimit_def
        MAX_BUFFER_SIZE_def currentSize_Nil initialState_def reachedNumberOfLogsLimit_def
        MAX_BUFFER_LENGTH_def shouldDoAPeriodicFlush_def orderLogs_def getLogs_def sortByTimestamp_def Array_sort_def SortCompare_def
        compareTimestamps_def
        putEventLogs_def whileSending_def wipeLogs_def)
  show ?thesis
    using r oversize_never_transmitted [where interval = 1000 and now = 2000 and start = 0
        and lg = "\<lparr>timestamp = 1, message = replicate 262144 (CHR ''a'')\<rparr>"
        and st = "initialState 0"
        and evs = "[Line \<lparr>timestamp = 1, message = replicate 262144 (CHR ''a'')\<rparr> 2000
           [\<lparr>held = [], reply = Accepted (Some ''t1''), inFlight = [], stamp = 0, check = 0\<rparr>],
         Line \<lparr>timestamp = 2, message = ''ok''\<rparr> 2000
           [\<lparr>held = [], reply = Accepted (Some ''t1''), inFlight = [], stamp = 0, check = 0\<rparr>]]"
        and st' = "\<lparr>bufferedLogs = [], lastFlush = 2000, sequenceToken = Some ''t1'',
           immediates = [], requests = [(None, [\<lparr>timestamp = 2, message = ''ok''\<rparr>])],
               admitted = [\<lparr>timestamp = 2, message = ''ok''\<rparr>]\<rparr>"]
    by simp
qed

section \<open>Deferred admission\<close>


















text \<open>
  C10: the callback of a deferred event runs \<^verbatim>\<open>addLog\<close> and nothing else. The state after
  it is the state \<^verbatim>\<open>addLog\<close> leaves, whatever \<^verbatim>\<open>addLog\<close> returned: no request is sent, the
  token is as before, and the buffer is the buffer before, with the event appended if
  it was admitted; it is not wiped.
\<close>

theorem deferred_retry_never_flushes:
  assumes "immediates st = lg # rest"
  shows "runImmediate interval now st = snd (addLog interval now lg (st\<lparr>immediates := rest\<rparr>))
    \<and> step interval (Immediate now) st = Some (runImmediate interval now st)
    \<and> requests (runImmediate interval now st) = requests st
    \<and> sequenceToken (runImmediate interval now st) = sequenceToken st
    \<and> (bufferedLogs (runImmediate interval now st) = bufferedLogs st
       \<or> bufferedLogs (runImmediate interval now st) = bufferedLogs st @ [lg])"
  using assms
  by (auto simp: runImmediate_def addLog_def Let_def shouldDoAPeriodicFlush_def)

theorem deferred_retry_never_flushes_witness:
  "immediates \<lparr>bufferedLogs = replicate 9999 \<lparr>timestamp = 0, message = ''x''\<rparr>, lastFlush = 0,
       sequenceToken = None, immediates = [\<lparr>timestamp = 5, message = ''x''\<rparr>], requests = [],
       admitted = []\<rparr>
     = [\<lparr>timestamp = 5, message = ''x''\<rparr>]
   \<and> fst (addLog 1000 5 \<lparr>timestamp = 5, message = ''x''\<rparr>
       \<lparr>bufferedLogs = replicate 9999 \<lparr>timestamp = 0, message = ''x''\<rparr>, lastFlush = 0,
        sequenceToken = None, immediates = [], requests = [], admitted = []\<rparr>)
   \<and> requests (runImmediate 1000 5
       \<lparr>bufferedLogs = replicate 9999 \<lparr>timestamp = 0, message = ''x''\<rparr>, lastFlush = 0,
        sequenceToken = None, immediates = [\<lparr>timestamp = 5, message = ''x''\<rparr>],
        requests = [], admitted = []\<rparr>) = []
   \<and> length (bufferedLogs (runImmediate 1000 5
       \<lparr>bufferedLogs = replicate 9999 \<lparr>timestamp = 0, message = ''x''\<rparr>, lastFlush = 0,
        sequenceToken = None, immediates = [\<lparr>timestamp = 5, message = ''x''\<rparr>],
        requests = [], admitted = []\<rparr>)) = 10000"
  using deferred_retry_never_flushes [where interval = 1000 and now = 5 and rest = "[]"
      and lg = "\<lparr>timestamp = 5, message = ''x''\<rparr>"
      and st = "\<lparr>bufferedLogs = replicate 9999 \<lparr>timestamp = 0, message = ''x''\<rparr>, lastFlush = 0,
        sequenceToken = None, immediates = [\<lparr>timestamp = 5, message = ''x''\<rparr>],
        requests = [], admitted = []\<rparr>"]
  by (simp add: addLog_def logEventExceedsSize_def MAX_EVENT_SIZE_def reachedBufferSizeLimit_def
      currentSize_replicate MAX_BUFFER_SIZE_def reachedNumberOfLogsLimit_def MAX_BUFFER_LENGTH_def)

section \<open>Normalising a line\<close>

text \<open>
  C8, as the code has it: for every line that \<^verbatim>\<open>JSON.parse\<close> does not turn into \<^verbatim>\<open>null\<close>,
  \<^verbatim>\<open>parseLine\<close> returns a record whose message is the line itself; its timestamp is the
  \<^verbatim>\<open>time\<close> property when the line parses to an object that has one and its value is
  truthy, and the current time in every other case: no such property, a falsy one, a
  parsed value that is not an object, or a line that does not parse.
\<close>

theorem parseLine_record:
  assumes "JSON_parse line \<noteq> Some JNull"
  shows "parseLine JSON_parse now line =
     Inr \<lparr>timestamp =
            (case JSON_parse line of
               Some (JObject props) \<Rightarrow>
                 (case map_of props ''time'' of
                    Some t \<Rightarrow> if truthy t then t else JNumber now
                  | None \<Rightarrow> JNumber now)
             | _ \<Rightarrow> JNumber now),
          message = line\<rparr>"
  using assms by (auto simp: parseLine_def split: option.splits json.splits)

theorem parseLine_record_witness:
  \<open>map_of [(''{"time":1000,"msg":"a"}'', JObject [(''time'', JNumber 1000), (''msg'', JString ''a'')])]
      ''{"time":1000,"msg":"a"}'' \<noteq> Some JNull
   \<and> parseLine
        (map_of [(''{"time":1000,"msg":"a"}'', JObject [(''time'', JNumber 1000), (''msg'', JString ''a'')])])
        1700000000000 ''{"time":1000,"msg":"a"}''
      = Inr \<lparr>timestamp = JNumber 1000, message = ''{"time":1000,"msg":"a"}''\<rparr>
   \<and> parseLine (\<lambda>l. None) 1700000000000 ''not-json''
      = Inr \<lparr>timestamp = JNumber 1700000000000, message = ''not-json''\<rparr>\<close>
  using parseLine_record [of
      \<open>map_of [(''{"time":1000,"msg":"a"}'', JObject [(''time'', JNumber 1000), (''msg'', JString ''a'')])]\<close>
      \<open>''{"time":1000,"msg":"a"}''\<close> 1700000000000]
    parseLine_record [of \<open>\<lambda>l. None\<close> \<open>''not-json''\<close> 1700000000000]
  by simp

text \<open>
  C8 as stated fails on two lines. The line \<^verbatim>\<open>{"time":0}\<close> parses to an object that carries
  a \<^verbatim>\<open>time\<close> field, and the record's timestamp is the current time, not 0. The line
  \<^verbatim>\<open>null\<close> parses, and \<^verbatim>\<open>parseLine\<close> throws instead of returning a record.
\<close>

theorem parseLine_time_counterexample:
  \<open>parseLine (map_of [(''{"time":0}'', JObject [(''time'', JNumber 0)])]) 1700000000000 ''{"time":0}''
      = Inr \<lparr>timestamp = JNumber 1700000000000, message = ''{"time":0}''\<rparr>
   \<and> parseLine (map_of [(''null'', JNull)]) 1700000000000 ''null'' = Inl TypeError\<close>
  by (simp add: parseLine_def)

section \<open>A failed submission\<close>

text \<open>
  A call of \<^verbatim>\<open>flush\<close> whose submission does not fail with such an error completes, and
  every call that completes leaves the buffer empty.
\<close>

lemma flush_completes:
  assumes "\<And>e. reply a \<noteq> OtherError e"
  shows "\<exists>st'. flush interval (a # env) st = Some st'"
  using assms
  by (cases "reply a") (auto simp: putEventLogs_def Let_def)

lemma flush_wipes: "flush interval env st = Some st' \<Longrightarrow> bufferedLogs st' = []"
  by (induction env arbitrary: st st')
     (auto simp: wipeLogs_def Let_def split: prod.splits sum.splits if_splits)

text \<open>
  C5 at a concrete input: one event is buffered, the clock reads 10 and \<^verbatim>\<open>lastFlush\<close> is 0,
  the interval is 1000, and the submission fails with an error that is not a token
  conflict. The call of \<^verbatim>\<open>flush\<close> completes; the one request sent holds the buffered event
  only; and in the state it leaves, the buffer and the queue of immediates are empty: the
  error record that the \<^verbatim>\<open>catch\<close> block pushed was wiped by the \<^verbatim>\<open>finally\<close> block and is in
  no request.
\<close>

theorem flush_failure_loses_error_record:
  "flush 1000
     [\<lparr>held = [], reply = OtherError ''boom'', inFlight = [], stamp = 10, check = 10\<rparr>]
     \<lparr>bufferedLogs = [\<lparr>timestamp = 3, message = ''a''\<rparr>], lastFlush = 0,
      sequenceToken = None, immediates = [], requests = [], admitted = []\<rparr>
   = Some \<lparr>bufferedLogs = [], lastFlush = 10, sequenceToken = None, immediates = [],
           requests = [(None, [\<lparr>timestamp = 3, message = ''a''\<rparr>])],
           admitted =
             [\<lparr>timestamp = 10,
               message = JSON_stringify ''pino-cloudwatch-transport flushing error'' ''boom''\<rparr>]\<rparr>"
  by (simp add: addLog_def logEventExceedsSize_def MAX_EVENT_SIZE_def reachedBufferSizeLimit_def
        MAX_BUFFER_SIZE_def currentSize_single reachedNumberOfLogsLimit_def
        MAX_BUFFER_LENGTH_def shouldDoAPeriodicFlush_def orderLogs_def getLogs_def sortByTimestamp_def Array_sort_def SortCompare_def
        compareTimestamps_def
        putEventLogs_def whileSending_def wipeLogs_def JSON_stringify_def JSON_quote_def
        quoteChar_def)

section \<open>The count ceiling\<close>

lemma run_append:
  "run interval (es1 @ es2) st =
     (case run interval es1 st of None \<Rightarrow> None | Some st1 \<Rightarrow> run interval es2 st1)"
  by (induction es1 arbitrary: st) (auto split: option.splits)

lemma Array_sort_Nil_iff: "Array_sort cmp xs = [] \<longleftrightarrow> xs = []"
  using length_Array_sort [of cmp xs] by (metis length_0_conv)

lemma currentSize_Array_sort: "currentSize (Array_sort cmp xs) = currentSize xs"
  by (rule currentSize_mset) (rule mset_Array_sort)

lemma run_quiet:
  "k + n < 10000 \<Longrightarrow>
   run 1000 (replicate n (Line \<lparr>timestamp = 0, message = ''x''\<rparr> 0 []))
     \<lparr>bufferedLogs = replicate k \<lparr>timestamp = 0, message = ''x''\<rparr>, lastFlush = 0,
      sequenceToken = None, immediates = [], requests = [],
      admitted = replicate k \<lparr>timestamp = 0, message = ''x''\<rparr>\<rparr>
   = Some \<lparr>bufferedLogs = replicate (k + n) \<lparr>timestamp = 0, message = ''x''\<rparr>, lastFlush = 0,
      sequenceToken = None, immediates = [], requests = [],
      admitted = replicate (k + n) \<lparr>timestamp = 0, message = ''x''\<rparr>\<rparr>"
proof (induction n arbitrary: k)
  case 0
  then show ?case by simp
next
  case (Suc n)
  have "step 1000 (Line \<lparr>timestamp = 0, message = ''x''\<rparr> 0 [])
     \<lparr>bufferedLogs = replicate k \<lparr>timestamp = 0, message = ''x''\<rparr>, lastFlush = 0,
      sequenceToken = None, immediates = [], requests = [],
      admitted = replicate k \<lparr>timestamp = 0, message = ''x''\<rparr>\<rparr>
    = Some \<lparr>bufferedLogs = replicate (Suc k) \<lparr>timestamp = 0, message = ''x''\<rparr>, lastFlush = 0,
      sequenceToken = None, immediates = [], requests = [],
      admitted = replicate (Suc k) \<lparr>timestamp = 0, message = ''x''\<rparr>\<rparr>"
    using Suc.prems
    by (simp add: addLog_def logEventExceedsSize_def MAX_EVENT_SIZE_def reachedBufferSizeLimit_def
        MAX_BUFFER_SIZE_def currentSize_replicate reachedNumberOfLogsLimit_def
        MAX_BUFFER_LENGTH_def shouldDoAPeriodicFlush_def replicate_append_same)
  moreover have "Suc k + n < 10000" using Suc.prems by simp
  ultimately show ?case using Suc.IH [of "Suc k"] by simp
qed

text \<open>
  C1 at a concrete input: 10000 events arrive within the interval, the last one brings the
  buffer to 10000 and triggers a flush; its submission fails with an error that is not a
  token conflict, 1500 ms after \<^verbatim>\<open>lastFlush\<close>. The \<^verbatim>\<open>catch\<close> block pushes the error record as
  the 10001st event, \<^verbatim>\<open>addLog\<close> returns true for the elapsed time, and the nested call of
  \<^verbatim>\<open>flush\<close> sends a request of 10001 events.
\<close>

theorem count_ceiling_exceeded:
  "\<exists>st. run 1000
      (replicate 9999 (Line \<lparr>timestamp = 0, message = ''x''\<rparr> 0 []) @
       [Line \<lparr>timestamp = 0, message = ''x''\<rparr> 0
          [\<lparr>held = [], reply = OtherError ''timeout'', inFlight = [], stamp = 1500, check = 1500\<rparr>,
           \<lparr>held = [], reply = Accepted None, inFlight = [], stamp = 0, check = 0\<rparr>]])
      (initialState 0) = Some st
    \<and> map (\<lambda>rq. length (snd rq)) (requests st) = [10000, 10001]"
proof -
  have quiet: "run 1000 (replicate 9999 (Line \<lparr>timestamp = 0, message = ''x''\<rparr> 0 [])) (initialState 0)
     = Some \<lparr>bufferedLogs = replicate 9999 \<lparr>timestamp = 0, message = ''x''\<rparr>, lastFlush = 0,
         sequenceToken = None, immediates = [], requests = [],
         admitted = replicate 9999 \<lparr>timestamp = 0, message = ''x''\<rparr>\<rparr>"
    using run_quiet [of 0 9999] by (simp add: initialState_def)
  show ?thesis
    by (simp add: run_append quiet addLog_def logEventExceedsSize_def MAX_EVENT_SIZE_def
        reachedBufferSizeLimit_def MAX_BUFFER_SIZE_def currentSize_replicate currentSize_append
        currentSize_single currentSize_Array_sort Array_sort_Nil_iff length_Array_sort
        reachedNumberOfLogsLimit_def MAX_BUFFER_LENGTH_def shouldDoAPeriodicFlush_def
        orderLogs_def getLogs_def sortByTimestamp_def putEventLogs_def whileSending_def wipeLogs_def
        JSON_stringify_def JSON_quote_def quoteChar_def)
qed

end
